theory Spec2Isabelle
  imports Main
begin

section \<open>The outline of a Go source file (main.go)\<close>

text \<open>
  The program reads one Go source file (from disk, or from an overlay archive on standard
  input), has it parsed, walks the top-level declarations of the syntax tree and prints
  one JSON array holding the root \<open>package\<close> declaration. The parser
  (\<open>go/parser\<close>), the printer of expressions (\<open>go/format\<close>) and the reader of
  the overlay archive (\<open>buildutil\<close>) are libraries: they are parameters of the model.
\<close>

subsection \<open>The syntax tree, as far as main.go reads it\<close>

text \<open>
  A position is \<open>token.Pos\<close>, an integer; main.go copies positions and never computes
  with them. Each node below the file node carries the values its \<open>Pos()\<close> and
  \<open>End()\<close> methods return; for the file node the two methods are written out.
\<close>

type_synonym Pos = int

datatype Expr =
    IdentExpr string
  | StarExpr Expr
  | SelectorExpr Expr string
  | IndexExpr Expr Expr
  | IndexListExpr Expr "Expr list"
  | ParenExpr Expr
  | BadExpr

record Ident =
  id_Name :: string
  id_Pos :: Pos
  id_End :: Pos

text \<open>One entry of a field list: \<open>Names\<close> are the declared variables, \<open>Type\<close> their type.\<close>

record Field =
  fld_Names :: "Ident list"
  fld_Type :: Expr

text \<open>
  \<open>fn_Recv\<close> is the receiver clause: \<open>None\<close> is the nil pointer of a plain function,
  \<open>Some fs\<close> a field list whose \<open>List\<close> is \<open>fs\<close> (a slice, which may be empty).
\<close>

record FuncDecl =
  fn_Recv :: "Field list option"
  fn_Name :: Ident
  fn_Pos :: Pos
  fn_End :: Pos

text \<open>The value of \<open>GenDecl.Tok\<close>: the keyword of the grouped declaration.\<close>

datatype Token = token_IMPORT | token_CONST | token_TYPE | token_VAR

text \<open>
  \<open>ImportSpec\<close> carries \<open>Path.Value\<close>, the text of the path literal as the scanner read
  it. \<open>OtherSpec\<close> stands for any value of the interface \<open>ast.Spec\<close> that is none of the
  three node types: the \<open>default\<close> branch of the inner type switch.
\<close>

datatype Spec =
    ImportSpec (imp_Path_Value: string) (imp_Pos: Pos) (imp_End: Pos)
  | TypeSpec (ty_Name: Ident) (ty_Pos: Pos) (ty_End: Pos)
  | ValueSpec (val_Names: "Ident list")
  | OtherSpec

text \<open>
  \<open>BadDecl\<close> is the third node type of \<open>ast.Decl\<close> (the parser puts it where a
  declaration has a syntax error): the \<open>default\<close> branch of the outer type switch.
  \<open>gen_End\<close> and \<open>bad_End\<close> are the values of \<open>End()\<close> of the two nodes.
\<close>

datatype Decl =
    FuncDeclD FuncDecl
  | GenDecl (gen_Tok: Token) (gen_Specs: "Spec list") (gen_End: Pos)
  | BadDecl (bad_Pos: Pos) (bad_End: Pos)

fun Decl_End :: "Decl \<Rightarrow> Pos" where
  "Decl_End (FuncDeclD decl) = fn_End decl"
| "Decl_End (GenDecl tok specs e) = e"
| "Decl_End (BadDecl p e) = e"

text \<open>
  The file node: \<open>file_Package\<close> is the position of the keyword \<open>package\<close>,
  \<open>file_Name\<close> the package name.
\<close>

record File =
  file_Package :: Pos
  file_Name :: Ident
  file_Decls :: "Decl list"

text \<open>
  \<open>File.Pos()\<close> and \<open>File.End()\<close> of \<open>go/ast\<close>: the file node starts at the keyword
  \<open>package\<close> and ends where its last declaration ends, or where the package name ends
  when it has no declaration. Comments and blank lines before the keyword or after the
  last declaration are outside.
\<close>

definition file_Pos :: "File \<Rightarrow> Pos" where
  "file_Pos f = file_Package f"

definition file_End :: "File \<Rightarrow> Pos" where
  "file_End f =
     (case file_Decls f of
        [] \<Rightarrow> id_End (file_Name f)
      | d # ds \<Rightarrow> Decl_End (last (d # ds)))"

subsection \<open>The outline: type Declaration\<close>

text \<open>
  The struct is recursive, so it is a datatype with the fields as selectors. \<open>Children\<close>
  is a slice: \<open>None\<close> is the nil slice, \<open>Some cs\<close> an allocated one (\<open>Some []\<close> is
  \<open>[]Declaration{}\<close>).
\<close>

datatype Declaration =
  Declaration (Label: string) (Type: string) (ReceiverType: string)
              (Start: Pos) (End: Pos) (Children: "Declaration list option")

subsection \<open>Serialisation, from the struct tags\<close>

datatype Json =
    JString string
  | JNumber int
  | JArray "Json list"
  | JObject "(string \<times> Json) list"

text \<open>
  The tags of the struct give the keys in order; \<open>omitempty\<close> on \<open>receiverType\<close> and
  \<open>children\<close> leaves the key out when the string is empty, or the slice is nil or has
  length 0.
\<close>

fun marshal_Declaration :: "Declaration \<Rightarrow> Json" where
  "marshal_Declaration (Declaration l t r s e c) =
     JObject ([(''label'', JString l), (''type'', JString t)]
       @ (if r = [] then [] else [(''receiverType'', JString r)])
       @ [(''start'', JNumber s), (''end'', JNumber e)]
       @ (case c of
            None \<Rightarrow> []
          | Some cs \<Rightarrow> if cs = [] then [] else [(''children'', JArray (map marshal_Declaration cs))]))"

definition Marshal :: "Declaration list \<Rightarrow> Json" where
  "Marshal pkg = JArray (map marshal_Declaration pkg)"

text \<open>The keys of a JSON object (none for another value).\<close>

fun keys :: "Json \<Rightarrow> string list" where
  "keys (JObject kvs) = map fst kvs"
| "keys _ = []"

subsection \<open>The libraries main.go calls\<close>

datatype Mode = ParseComments | ImportsOnly

text \<open>
  \<open>ParseOverlayArchive\<close> returns the mapping from path to content, or an error (and then
  the nil map). \<open>parse_src\<close> is the parser on a source text: it always returns a tree, a
  partial one together with an error when the text has syntax errors. \<open>format_Node\<close>
  prints an expression, or fails.
\<close>

record Lib =
  ParseOverlayArchive :: "string \<Rightarrow> string + (string \<rightharpoonup> string)"
  parse_src :: "string \<Rightarrow> string \<Rightarrow> Mode \<Rightarrow> File \<times> string option"
  format_Node :: "Expr \<Rightarrow> string + string"

text \<open>
  What one run is given: the three flags, the bytes on standard input and the files on
  disk.
\<close>

record Env =
  flag_f :: string
  flag_imports_only :: bool
  flag_modified :: bool
  Stdin :: string
  disk :: "string \<rightharpoonup> string"

text \<open>
  \<open>parser.ParseFile(fset, filename, src, mode)\<close>: with \<open>src\<close> the nil interface
  (\<open>None\<close>) the file is read from disk, and when that fails the tree is nil and the
  error is set; with \<open>src\<close> a byte slice (\<open>Some text\<close>, also when the slice is nil
  or empty) the slice is the source and the disk is not read.
\<close>

definition ParseFile ::
  "Lib \<Rightarrow> (string \<rightharpoonup> string) \<Rightarrow> string \<Rightarrow> string option \<Rightarrow> Mode \<Rightarrow> File option \<times> string option" where
  "ParseFile L dsk filename src mode =
     (case (case src of Some text \<Rightarrow> Some text | None \<Rightarrow> dsk filename) of
        None \<Rightarrow> (None, Some ''cannot read the file'')
      | Some text \<Rightarrow> (case parse_src L filename text mode of (f, err) \<Rightarrow> (Some f, err)))"

subsection \<open>reportError and getReceiverType\<close>

text \<open>What main passes to \<open>reportError\<close>, one constructor per call site.\<close>

datatype Error =
    ArchiveError string
  | NotInArchive string
  | CouldNotParse string
  | ReceiverError string
  | UnknownTokenType Token
  | UnknownDeclaration Pos

text \<open>
  \<open>reportError\<close> writes the line \<open>error: ...\<close> to standard error and returns to its
  caller. Standard error is the list of the errors written so far.
\<close>

definition reportError :: "Error \<Rightarrow> Error list \<Rightarrow> Error list" where
  "reportError err stderr = stderr @ [err]"

text \<open>
  \<open>getReceiverType\<close> returns the pair (text, error) of the source. The outer \<open>None\<close>
  is the run-time panic of \<open>decl.Recv.List[0]\<close> on a list of length 0.
\<close>

definition getReceiverType :: "(Expr \<Rightarrow> string + string) \<Rightarrow> FuncDecl \<Rightarrow> (string \<times> string option) option" where
  "getReceiverType fmt decl =
     (case fn_Recv decl of
        None \<Rightarrow> Some ('''', None)
      | Some recv_list \<Rightarrow>
          (case recv_list of
             [] \<Rightarrow> None
           | first # _ \<Rightarrow>
               (case fmt (fld_Type first) of
                  Inl err \<Rightarrow> Some ('''', Some err)
                | Inr text \<Rightarrow> Some (text, None))))"

subsection \<open>The loop over the top-level declarations\<close>

text \<open>The variables the loop changes: the slice \<open>declarations\<close> and standard error.\<close>

record Walk =
  declarations :: "Declaration list"
  errs :: "Error list"

datatype 'a Outcome = Done 'a | Panic 'a

definition append_decl :: "Declaration \<Rightarrow> Walk \<Rightarrow> Walk" where
  "append_decl d w = w\<lparr>declarations := declarations w @ [d]\<rparr>"

definition report :: "Error \<Rightarrow> Walk \<Rightarrow> Walk" where
  "report err w = w\<lparr>errs := reportError err (errs w)\<rparr>"

text \<open>The body of \<open>for _, id := range spec.Names\<close>, in a declaration of keyword \<open>tok\<close>.\<close>

definition name_step :: "Token \<Rightarrow> Walk \<Rightarrow> Ident \<Rightarrow> Walk" where
  "name_step tok w ident =
     (let varOrConst = (if tok = token_CONST then ''constant'' else ''variable'')
      in append_decl (Declaration (id_Name ident) varOrConst '''' (id_Pos ident) (id_End ident) (Some [])) w)"

text \<open>The body of \<open>for _, spec := range decl.Specs\<close>.\<close>

fun spec_step :: "Token \<Rightarrow> Walk \<Rightarrow> Spec \<Rightarrow> Walk" where
  "spec_step tok w (ImportSpec path p e) =
     append_decl (Declaration path ''import'' '''' p e (Some [])) w"
| "spec_step tok w (TypeSpec name p e) =
     append_decl (Declaration (id_Name name) ''type'' '''' p e (Some [])) w"
| "spec_step tok w (ValueSpec names) = foldl (name_step tok) w names"
| "spec_step tok w OtherSpec = report (UnknownTokenType tok) w"

text \<open>The body of \<open>for _, decl := range fileAst.Decls\<close>.\<close>

fun decl_step :: "(Expr \<Rightarrow> string + string) \<Rightarrow> Walk \<Rightarrow> Decl \<Rightarrow> Walk Outcome" where
  "decl_step fmt w (FuncDeclD decl) =
     (case getReceiverType fmt decl of
        None \<Rightarrow> Panic w
      | Some (receiverType, err) \<Rightarrow>
          (let w1 = (case err of Some e \<Rightarrow> report (ReceiverError e) w | None \<Rightarrow> w)
           in Done (append_decl
                (Declaration (id_Name (fn_Name decl)) ''function'' receiverType
                   (fn_Pos decl) (fn_End decl) (Some [])) w1)))"
| "decl_step fmt w (GenDecl tok specs e) = Done (foldl (spec_step tok) w specs)"
| "decl_step fmt w (BadDecl p e) = Done (report (UnknownDeclaration p) w)"

fun walk :: "(Expr \<Rightarrow> string + string) \<Rightarrow> Walk \<Rightarrow> Decl list \<Rightarrow> Walk Outcome" where
  "walk fmt w [] = Done w"
| "walk fmt w (d # ds) =
     (case decl_step fmt w d of
        Panic w' \<Rightarrow> Panic w'
      | Done w' \<Rightarrow> walk fmt w' ds)"

subsection \<open>main\<close>

text \<open>
  How the process ends: \<open>Returned\<close> when main returns, \<open>Panicked\<close> on a run-time panic.
  \<open>Stderr\<close> is the list of the calls of \<open>reportError\<close> (the trace the Go runtime
  writes on a panic is left out), \<open>Stdout\<close> the list of the values printed.
\<close>

datatype Exit = Returned | Panicked

record Run =
  Stderr :: "Error list"
  Stdout :: "Json list"
  Status :: Exit

text \<open>
  The source resolution of lines 40 to 59. In the \<open>-modified\<close> branch,
  \<open>archive, err := ...\<close> declares a new \<open>err\<close> for the block, so the error of
  \<open>parser.ParseFile\<close> there is assigned to that inner variable and the outer \<open>err\<close>,
  the one tested on line 57, stays nil. A path missing from the archive leaves \<open>fc\<close> the
  nil byte slice, which \<open>ParseFile\<close> receives as a source of length 0. The result is
  the tree, the outer \<open>err\<close> and standard error.
\<close>

definition resolve :: "Lib \<Rightarrow> Env \<Rightarrow> Mode \<Rightarrow> File option \<times> string option \<times> Error list" where
  "resolve L E parserMode =
     (if flag_modified E then
        (let r = ParseOverlayArchive L (Stdin E);
             archive = (case r of Inl _ \<Rightarrow> Map.empty | Inr m \<Rightarrow> m);
             stderr1 = (case r of Inl e \<Rightarrow> reportError (ArchiveError e) [] | Inr _ \<Rightarrow> []);
             fc = (case archive (flag_f E) of Some content \<Rightarrow> content | None \<Rightarrow> []);
             stderr2 = (case archive (flag_f E) of
                          Some _ \<Rightarrow> stderr1
                        | None \<Rightarrow> reportError (NotInArchive (flag_f E)) stderr1)
         in (fst (ParseFile L (disk E) (flag_f E) (Some fc) parserMode), None, stderr2))
      else
        (case ParseFile L (disk E) (flag_f E) None parserMode of
           (fileAst, err) \<Rightarrow> (fileAst, err, [])))"

definition root :: "File \<Rightarrow> Declaration list \<Rightarrow> Declaration" where
  "root fileAst ds =
     Declaration (id_Name (file_Name fileAst)) ''package'' ''''
       (file_Pos fileAst) (file_End fileAst) (Some ds)"

text \<open>Lines 35 to 38: the parser mode the flags ask for.\<close>

definition parserMode :: "Env \<Rightarrow> Mode" where
  "parserMode E = (if flag_imports_only E then ImportsOnly else ParseComments)"

text \<open>
  Lines 57 to 133. No call of \<open>reportError\<close> ends the run: main goes on with the next
  statement. A nil tree (the file could not be read) makes \<open>fileAst.Decls\<close> panic;
  otherwise the loop runs and, unless it panics, the root is built and printed.
\<close>

definition main :: "Lib \<Rightarrow> Env \<Rightarrow> Run" where
  "main L E =
     (case resolve L E (parserMode E) of
        (fileAst, err, stderr1) \<Rightarrow>
          (let stderr2 = (case err of
                            Some _ \<Rightarrow> reportError (CouldNotParse (flag_f E)) stderr1
                          | None \<Rightarrow> stderr1)
           in case fileAst of
                None \<Rightarrow> \<lparr>Stderr = stderr2, Stdout = [], Status = Panicked\<rparr>
              | Some f \<Rightarrow>
                  (case walk (format_Node L) \<lparr>declarations = [], errs = stderr2\<rparr> (file_Decls f) of
                     Panic w \<Rightarrow> \<lparr>Stderr = errs w, Stdout = [], Status = Panicked\<rparr>
                   | Done w \<Rightarrow>
                       \<lparr>Stderr = errs w,
                        Stdout = [Marshal [root f (declarations w)]],
                        Status = Returned\<rparr>)))"

subsection \<open>The loop on a non-empty state\<close>

text \<open>
  The loop only appends: run from a state \<open>w\<close>, it adds to \<open>w\<close> what it adds to the
  empty state \<open>W0\<close>. \<open>shift w v\<close> is \<open>w\<close> followed by \<open>v\<close>.
\<close>

definition W0 :: Walk where
  "W0 = \<lparr>declarations = [], errs = []\<rparr>"

definition shift :: "Walk \<Rightarrow> Walk \<Rightarrow> Walk" where
  "shift w v = \<lparr>declarations = declarations w @ declarations v, errs = errs w @ errs v\<rparr>"

fun shift_outcome :: "Walk \<Rightarrow> Walk Outcome \<Rightarrow> Walk Outcome" where
  "shift_outcome w (Done v) = Done (shift w v)"
| "shift_outcome w (Panic v) = Panic (shift w v)"

subsection \<open>What the run is to outline, and what it collects\<close>

text \<open>
  The text the flags designate: the content of the path in the archive on standard input
  with \<open>-modified\<close>, the content of the file on disk without. \<open>None\<close> when the archive
  is malformed, the path is not in it, or the file cannot be read.
\<close>

definition source_text :: "Lib \<Rightarrow> Env \<Rightarrow> string option" where
  "source_text L E =
     (if flag_modified E then
        (case ParseOverlayArchive L (Stdin E) of
           Inl _ \<Rightarrow> None
         | Inr archive \<Rightarrow> archive (flag_f E))
      else disk E (flag_f E))"

text \<open>The slice \<open>declarations\<close> after the loop has run over \<open>decls\<close>, started empty.\<close>

definition walked :: "(Expr \<Rightarrow> string + string) \<Rightarrow> Decl list \<Rightarrow> Declaration list" where
  "walked fmt decls =
     (case walk fmt W0 decls of
        Done w \<Rightarrow> declarations w
      | Panic w \<Rightarrow> declarations w)"

text \<open>
  The count of the specification: one for each function or method, import spec and type
  spec, and for each value spec the number of its identifiers.
\<close>

fun spec_count :: "Spec \<Rightarrow> nat" where
  "spec_count (ImportSpec path p e) = 1"
| "spec_count (TypeSpec name p e) = 1"
| "spec_count (ValueSpec names) = length names"
| "spec_count OtherSpec = 0"

fun decl_count :: "Decl \<Rightarrow> nat" where
  "decl_count (FuncDeclD decl) = 1"
| "decl_count (GenDecl tok specs e) = sum_list (map spec_count specs)"
| "decl_count (BadDecl p e) = 0"

definition top_level_count :: "Decl list \<Rightarrow> nat" where
  "top_level_count decls = sum_list (map decl_count decls)"

text \<open>
  A node without children of its own: the slice is allocated and empty, and the kind is
  one of the five kinds below the root.
\<close>

definition leaf :: "Declaration \<Rightarrow> bool" where
  "leaf d \<longleftrightarrow>
     Children d = Some [] \<and>
     Type d \<in> {''function'', ''import'', ''type'', ''variable'', ''constant''}"

text \<open>The report of line 58, that the file does not parse.\<close>

fun is_parse_error :: "Error \<Rightarrow> bool" where
  "is_parse_error (CouldNotParse path) = True"
| "is_parse_error _ = False"

text \<open>
  Positions in the source text: main parses one file into a new file set, whose base is
  1, so the byte at offset \<open>k\<close> has position \<open>1 + k\<close>. A span from \<open>s\<close> to \<open>e\<close>
  (the end is the position after the last byte) covers the text when it starts at the
  first byte or before and ends after the last byte or later.
\<close>

definition covers :: "Pos \<Rightarrow> Pos \<Rightarrow> string \<Rightarrow> bool" where
  "covers s e text \<longleftrightarrow> s \<le> 1 \<and> 1 + int (length text) \<le> e"

subsection \<open>Example inputs\<close>

text \<open>
  A printer of receiver type expressions in the place of \<open>format.Node\<close>: it writes the
  pointer marker, the qualifier and the type arguments as the source has them.
\<close>

fun commas :: "string list \<Rightarrow> string" where
  "commas [] = []"
| "commas [s] = s"
| "commas (s # t # ss) = s @ '', '' @ commas (t # ss)"

fun print_Expr :: "Expr \<Rightarrow> string" where
  "print_Expr (IdentExpr name) = name"
| "print_Expr (StarExpr x) = ''*'' @ print_Expr x"
| "print_Expr (SelectorExpr x sel) = print_Expr x @ ''.'' @ sel"
| "print_Expr (IndexExpr x i) = print_Expr x @ ''['' @ print_Expr i @ '']''"
| "print_Expr (IndexListExpr x is) = print_Expr x @ ''['' @ commas (map print_Expr is) @ '']''"
| "print_Expr (ParenExpr x) = ''('' @ print_Expr x @ '')''"
| "print_Expr BadExpr = ''BadExpr''"

definition lines :: "string list \<Rightarrow> string" where
  "lines ls = concat (map (\<lambda>l. l @ [CHR 0x0A]) ls)"

text \<open>The import path literal of the example, with its quote characters.\<close>

definition fmt_literal :: string where
  "fmt_literal = [CHR 0x22] @ ''fmt'' @ [CHR 0x22]"

text \<open>A file that parses, and its tree with the positions \<open>go/parser\<close> gives (1-based).\<close>

definition example_src :: string where
  "example_src = lines
     [''package p'',
      '''',
      ''import '' @ fmt_literal,
      '''',
      ''type Foo struct{}'',
      '''',
      ''const a, b = 1, 2'',
      '''',
      ''var x int'',
      '''',
      ''func (r *Foo) Bar() {}'',
      '''',
      ''func main() {}'']"

definition Bar_decl :: FuncDecl where
  "Bar_decl =
     \<lparr>fn_Recv = Some [\<lparr>fld_Names = [\<lparr>id_Name = ''r'', id_Pos = 81, id_End = 82\<rparr>],
                        fld_Type = StarExpr (IdentExpr ''Foo'')\<rparr>],
      fn_Name = \<lparr>id_Name = ''Bar'', id_Pos = 89, id_End = 92\<rparr>,
      fn_Pos = 75, fn_End = 97\<rparr>"

definition main_decl :: FuncDecl where
  "main_decl =
     \<lparr>fn_Recv = None,
      fn_Name = \<lparr>id_Name = ''main'', id_Pos = 104, id_End = 108\<rparr>,
      fn_Pos = 99, fn_End = 113\<rparr>"

definition example_File :: File where
  "example_File =
     \<lparr>file_Package = 1,
      file_Name = \<lparr>id_Name = ''p'', id_Pos = 9, id_End = 10\<rparr>,
      file_Decls =
        [GenDecl token_IMPORT [ImportSpec fmt_literal 19 24] 24,
         GenDecl token_TYPE [TypeSpec \<lparr>id_Name = ''Foo'', id_Pos = 31, id_End = 34\<rparr> 31 43] 43,
         GenDecl token_CONST [ValueSpec [\<lparr>id_Name = ''a'', id_Pos = 51, id_End = 52\<rparr>,
                                         \<lparr>id_Name = ''b'', id_Pos = 54, id_End = 55\<rparr>]] 62,
         GenDecl token_VAR [ValueSpec [\<lparr>id_Name = ''x'', id_Pos = 68, id_End = 69\<rparr>]] 73,
         FuncDeclD Bar_decl,
         FuncDeclD main_decl]\<rparr>"

text \<open>
  A text that is no Go file gets the empty tree and an error: the parser stops at the
  package clause. The text of length 0 is the case used below.
\<close>

definition empty_File :: File where
  "empty_File =
     \<lparr>file_Package = 0,
      file_Name = \<lparr>id_Name = [], id_Pos = 0, id_End = 0\<rparr>,
      file_Decls = []\<rparr>"

text \<open>
  A method with an empty receiver list: the parser accepts it (the type checker is the
  one to reject it) and gives a receiver clause whose list has length 0.
\<close>

definition norecv_src :: string where
  "norecv_src = lines [''package p'', '''', ''func () f() {}'']"

definition norecv_decl :: FuncDecl where
  "norecv_decl =
     \<lparr>fn_Recv = Some [],
      fn_Name = \<lparr>id_Name = ''f'', id_Pos = 20, id_End = 21\<rparr>,
      fn_Pos = 12, fn_End = 26\<rparr>"

definition norecv_File :: File where
  "norecv_File =
     \<lparr>file_Package = 1,
      file_Name = \<lparr>id_Name = ''p'', id_Pos = 9, id_End = 10\<rparr>,
      file_Decls = [FuncDeclD norecv_decl]\<rparr>"

text \<open>
  A file with a comment before the package clause and one after the last declaration,
  and a file that is only a package clause.
\<close>

definition commented_src :: string where
  "commented_src = lines
     [''// leading comment'',
      ''package p'',
      '''',
      ''var x int'',
      '''',
      ''// trailing comment'']"

definition commented_File :: File where
  "commented_File =
     \<lparr>file_Package = 20,
      file_Name = \<lparr>id_Name = ''p'', id_Pos = 28, id_End = 29\<rparr>,
      file_Decls = [GenDecl token_VAR [ValueSpec [\<lparr>id_Name = ''x'', id_Pos = 35, id_End = 36\<rparr>]] 40]\<rparr>"

definition bare_src :: string where
  "bare_src = lines [''package p'']"

definition bare_File :: File where
  "bare_File =
     \<lparr>file_Package = 1,
      file_Name = \<lparr>id_Name = ''p'', id_Pos = 9, id_End = 10\<rparr>,
      file_Decls = []\<rparr>"

text \<open>
  The libraries on the example inputs: the parser on the texts above (any other text is
  treated as no Go file), the archive reader on the empty input and on one entry for
  \<open>a.go\<close> of length 0 or holding the example.
\<close>

definition example_parse :: "string \<Rightarrow> string \<Rightarrow> Mode \<Rightarrow> File \<times> string option" where
  "example_parse filename text mode =
     (if text = example_src \<and> mode = ParseComments then (example_File, None)
      else if text = norecv_src \<and> mode = ParseComments then (norecv_File, None)
      else if text = commented_src \<and> mode = ParseComments then (commented_File, None)
      else if text = bare_src \<and> mode = ParseComments then (bare_File, None)
      else (empty_File, Some ''expected package''))"

definition example_archive :: "string \<Rightarrow> string + (string \<rightharpoonup> string)" where
  "example_archive input =
     (if input = [] then Inr Map.empty
      else if input = lines [''a.go'', ''0''] then Inr [''a.go'' \<mapsto> []]
      else if input = lines [''a.go'', ''113''] @ example_src then Inr [''a.go'' \<mapsto> example_src]
      else Inl ''malformed archive'')"

definition example_lib :: Lib where
  "example_lib =
     \<lparr>ParseOverlayArchive = example_archive,
      parse_src = example_parse,
      format_Node = (\<lambda>x. Inr (print_Expr x))\<rparr>"

text \<open>Runs on \<open>a.go\<close>.\<close>

definition run_env :: "bool \<Rightarrow> string \<Rightarrow> (string \<rightharpoonup> string) \<Rightarrow> Env" where
  "run_env modified input dsk =
     \<lparr>flag_f = ''a.go'', flag_imports_only = False, flag_modified = modified,
      Stdin = input, disk = dsk\<rparr>"

section \<open>Properties of the loop\<close>

lemma shift_W0 [simp]: "shift w W0 = w" "shift W0 w = w"
  by (simp_all add: shift_def W0_def)

lemma shift_assoc: "shift (shift a b) c = shift a (shift b c)"
  by (simp add: shift_def)

lemma name_step_shift: "name_step tok w i = shift w (name_step tok W0 i)"
  by (simp add: name_step_def Let_def append_decl_def shift_def W0_def)

lemma foldl_shift:
  assumes "\<And>w x. step w x = shift w (step W0 x)"
  shows "foldl step w xs = shift w (foldl step W0 xs)"
proof (induction xs arbitrary: w)
  case Nil
  show ?case by simp
next
  case (Cons x xs)
  have "foldl step w (x # xs) = foldl step (step w x) xs" by simp
  also have "\<dots> = shift (step w x) (foldl step W0 xs)" by (rule Cons.IH)
  also have "\<dots> = shift (shift w (step W0 x)) (foldl step W0 xs)" using assms [of w x] by simp
  also have "\<dots> = shift w (shift (step W0 x) (foldl step W0 xs))" by (rule shift_assoc)
  also have "\<dots> = shift w (foldl step (step W0 x) xs)" using Cons.IH [of "step W0 x"] by simp
  finally show ?case by simp
qed

lemma spec_step_shift: "spec_step tok w s = shift w (spec_step tok W0 s)"
proof (cases s)
  case (ImportSpec v p e)
  then show ?thesis by (simp add: append_decl_def shift_def W0_def)
next
  case (TypeSpec n p e)
  then show ?thesis by (simp add: append_decl_def shift_def W0_def)
next
  case (ValueSpec names)
  have "foldl (name_step tok) w names = shift w (foldl (name_step tok) W0 names)"
    by (rule foldl_shift) (rule name_step_shift)
  then show ?thesis using ValueSpec by simp
next
  case OtherSpec
  then show ?thesis by (simp add: report_def reportError_def shift_def W0_def)
qed

lemma decl_step_shift: "decl_step fmt w d = shift_outcome w (decl_step fmt W0 d)"
proof (cases d)
  case (FuncDeclD decl)
  show ?thesis
  proof (cases "getReceiverType fmt decl")
    case None
    then show ?thesis using FuncDeclD by simp
  next
    case (Some r)
    obtain rt err where r: "r = (rt, err)" by (cases r)
    show ?thesis
      using FuncDeclD Some r
      by (cases err) (simp_all add: append_decl_def report_def reportError_def shift_def W0_def)
  qed
next
  case (GenDecl tok specs dend)
  have "foldl (spec_step tok) w specs = shift w (foldl (spec_step tok) W0 specs)"
    by (rule foldl_shift) (rule spec_step_shift)
  then show ?thesis using GenDecl by simp
next
  case (BadDecl p dend)
  then show ?thesis by (simp add: report_def reportError_def shift_def W0_def)
qed

lemma shift_outcome_assoc: "shift_outcome (shift a b) r = shift_outcome a (shift_outcome b r)"
  by (cases r) (simp_all add: shift_assoc)

lemma shift_outcome_W0 [simp]: "shift_outcome W0 r = r"
  by (cases r) simp_all

lemma walk_shift: "walk fmt w ds = shift_outcome w (walk fmt W0 ds)"
proof (induction ds arbitrary: w)
  case Nil
  show ?case by simp
next
  case (Cons d ds)
  show ?case
  proof (cases "decl_step fmt W0 d")
    case (Done v)
    then have "decl_step fmt w d = Done (shift w v)" using decl_step_shift [of fmt w d] by simp
    then have "walk fmt w (d # ds) = shift_outcome (shift w v) (walk fmt W0 ds)"
      using Cons.IH [of "shift w v"] by simp
    moreover have "walk fmt W0 (d # ds) = shift_outcome v (walk fmt W0 ds)"
      using Done Cons.IH [of v] by simp
    ultimately show ?thesis by (simp add: shift_outcome_assoc)
  next
    case (Panic v)
    then have "decl_step fmt w d = Panic (shift w v)" using decl_step_shift [of fmt w d] by simp
    then show ?thesis using Panic by simp
  qed
qed

lemma walk_append:
  "walk fmt w (xs @ ys) = (case walk fmt w xs of Panic w' \<Rightarrow> Panic w' | Done w' \<Rightarrow> walk fmt w' ys)"
  by (induction xs arbitrary: w) (simp_all split: Outcome.splits)

subsection \<open>What the loop collects, by parts of the list\<close>

lemma walked_Done: "walk fmt W0 ds = Done w \<Longrightarrow> walked fmt ds = declarations w"
  by (simp add: walked_def)

lemma declarations_shift [simp]: "declarations (shift w v) = declarations w @ declarations v"
  by (simp add: shift_def)

lemma walk_prefix_Done:
  assumes "walk fmt w (xs @ ys) = Done w'"
  shows "\<exists>v. walk fmt w xs = Done v \<and> walk fmt v ys = Done w'"
  using assms by (cases "walk fmt w xs") (simp_all add: walk_append)

lemma walked_append:
  assumes "walk fmt W0 xs = Done v"
  shows "walked fmt (xs @ ys) = walked fmt xs @ walked fmt ys"
proof -
  have "walk fmt W0 (xs @ ys) = walk fmt v ys" using assms by (simp add: walk_append)
  also have "\<dots> = shift_outcome v (walk fmt W0 ys)" by (rule walk_shift)
  finally have "walk fmt W0 (xs @ ys) = shift_outcome v (walk fmt W0 ys)" .
  then show ?thesis using assms
    by (cases "walk fmt W0 ys") (simp_all add: walked_def)
qed

lemma walked_Cons:
  assumes "decl_step fmt W0 d = Done v"
  shows "walked fmt (d # ds) = declarations v @ walked fmt ds"
proof -
  have "walk fmt W0 [d] = Done v" using assms by simp
  then have "walked fmt ([d] @ ds) = walked fmt [d] @ walked fmt ds" by (rule walked_append)
  then show ?thesis using assms by (simp add: walked_def)
qed

lemma spec_loop_append:
  "foldl (spec_step tok) W0 (xs @ ys) = shift (foldl (spec_step tok) W0 xs) (foldl (spec_step tok) W0 ys)"
proof -
  have "foldl (spec_step tok) W0 (xs @ ys) = foldl (spec_step tok) (foldl (spec_step tok) W0 xs) ys"
    by simp
  also have "\<dots> = shift (foldl (spec_step tok) W0 xs) (foldl (spec_step tok) W0 ys)"
    by (rule foldl_shift) (rule spec_step_shift)
  finally show ?thesis .
qed

lemma name_loop:
  "foldl (name_step tok) w names =
     w\<lparr>declarations := declarations w @
        map (\<lambda>ident. Declaration (id_Name ident)
               (if tok = token_CONST then ''constant'' else ''variable'') ''''
               (id_Pos ident) (id_End ident) (Some [])) names\<rparr>"
  by (induction names arbitrary: w) (simp_all add: name_step_def append_decl_def)

lemma walked_GenDecl_split:
  "walked fmt (GenDecl tok (s1 @ s2) dend # post) =
     declarations (foldl (spec_step tok) W0 s1) @ walked fmt (GenDecl tok s2 dend # post)"
proof -
  have a: "walked fmt (GenDecl tok (s1 @ s2) dend # post) =
      declarations (foldl (spec_step tok) W0 (s1 @ s2)) @ walked fmt post"
    by (rule walked_Cons) simp
  have b: "walked fmt (GenDecl tok s2 dend # post) =
      declarations (foldl (spec_step tok) W0 s2) @ walked fmt post"
    by (rule walked_Cons) simp
  show ?thesis unfolding a b spec_loop_append by simp
qed

lemma walked_GenDecl_single: "walked fmt [GenDecl tok specs dend] = declarations (foldl (spec_step tok) W0 specs)"
  by (simp add: walked_def)

lemma walked_spec_middle:
  assumes "walk fmt W0 (pre @ GenDecl tok (spre @ spec # spost) dend # post) = Done w"
  shows "walked fmt (pre @ GenDecl tok (spre @ spec # spost) dend # post) =
     walked fmt (pre @ [GenDecl tok spre dend]) @ declarations (spec_step tok W0 spec)
       @ walked fmt (GenDecl tok spost dend # post)"
proof -
  obtain v where v: "walk fmt W0 pre = Done v"
    using walk_prefix_Done [OF assms] by blast
  have "walked fmt (pre @ GenDecl tok (spre @ spec # spost) dend # post) =
      walked fmt pre @ walked fmt (GenDecl tok (spre @ spec # spost) dend # post)"
    using v by (rule walked_append)
  also have "walked fmt (GenDecl tok (spre @ spec # spost) dend # post) =
      declarations (foldl (spec_step tok) W0 spre) @ walked fmt (GenDecl tok ([spec] @ spost) dend # post)"
    using walked_GenDecl_split [of fmt tok spre "spec # spost" dend post] by simp
  also have "walked fmt (GenDecl tok ([spec] @ spost) dend # post) =
      declarations (foldl (spec_step tok) W0 [spec]) @ walked fmt (GenDecl tok spost dend # post)"
    by (rule walked_GenDecl_split)
  finally have "walked fmt (pre @ GenDecl tok (spre @ spec # spost) dend # post) =
      walked fmt pre @ declarations (foldl (spec_step tok) W0 spre)
        @ declarations (spec_step tok W0 spec) @ walked fmt (GenDecl tok spost dend # post)"
    by simp
  moreover have "walked fmt (pre @ [GenDecl tok spre dend]) =
      walked fmt pre @ declarations (foldl (spec_step tok) W0 spre)"
    using walked_append [OF v, of "[GenDecl tok spre dend]"] by (simp add: walked_GenDecl_single)
  ultimately show ?thesis by simp
qed


lemma decl_step_FuncDecl_plain:
  assumes "fn_Recv decl = None"
  shows "decl_step fmt W0 (FuncDeclD decl) =
    Done \<lparr>declarations = [Declaration (id_Name (fn_Name decl)) ''function'' '''' (fn_Pos decl) (fn_End decl) (Some [])],
          errs = []\<rparr>"
  using assms by (simp add: getReceiverType_def append_decl_def W0_def)

lemma decl_step_FuncDecl_method:
  assumes "fn_Recv decl = Some (fld # rest)" and "fmt (fld_Type fld) = Inr s"
  shows "decl_step fmt W0 (FuncDeclD decl) =
    Done \<lparr>declarations = [Declaration (id_Name (fn_Name decl)) ''function'' s (fn_Pos decl) (fn_End decl) (Some [])],
          errs = []\<rparr>"
  using assms by (simp add: getReceiverType_def append_decl_def W0_def)

lemma walked_decl_middle:
  assumes "walk fmt W0 (pre @ d # post) = Done w" and "decl_step fmt W0 d = Done v"
  shows "walked fmt (pre @ d # post) = walked fmt pre @ declarations v @ walked fmt post"
proof -
  obtain u where u: "walk fmt W0 pre = Done u"
    using walk_prefix_Done [OF assms(1)] by blast
  have "walked fmt (pre @ d # post) = walked fmt pre @ walked fmt (d # post)"
    using u by (rule walked_append)
  then show ?thesis using walked_Cons [OF assms(2)] by simp
qed

subsection \<open>The number of nodes\<close>

lemma foldl_W0_Cons:
  assumes "\<And>w x. step w x = shift w (step W0 x)"
  shows "foldl step W0 (x # xs) = shift (step W0 x) (foldl step W0 xs)"
proof -
  have "foldl step W0 (x # xs) = foldl step (step W0 x) xs" by simp
  also have "\<dots> = shift (step W0 x) (foldl step W0 xs)" using assms by (rule foldl_shift)
  finally show ?thesis .
qed

lemma spec_step_count: "length (declarations (spec_step tok W0 s)) = spec_count s"
  by (cases s) (simp_all add: name_loop append_decl_def report_def W0_def)

lemma spec_loop_count:
  "length (declarations (foldl (spec_step tok) W0 specs)) = sum_list (map spec_count specs)"
proof (induction specs)
  case Nil
  show ?case by (simp add: W0_def)
next
  case (Cons s specs)
  have "foldl (spec_step tok) W0 (s # specs) = shift (spec_step tok W0 s) (foldl (spec_step tok) W0 specs)"
    by (rule foldl_W0_Cons) (rule spec_step_shift)
  then show ?case using Cons.IH by (simp add: spec_step_count)
qed

lemma decl_step_count:
  assumes "decl_step fmt W0 d = Done v"
  shows "length (declarations v) = decl_count d"
proof (cases d)
  case (FuncDeclD decl)
  then show ?thesis using assms
    by (auto simp: append_decl_def report_def W0_def split: option.splits prod.splits)
next
  case (GenDecl tok specs dend)
  then show ?thesis using assms spec_loop_count [of tok specs] by auto
next
  case (BadDecl p dend)
  then show ?thesis using assms by (auto simp: report_def W0_def)
qed

lemma walk_count:
  "walk fmt W0 ds = Done w \<Longrightarrow> length (declarations w) = top_level_count ds"
proof (induction ds arbitrary: w)
  case Nil
  then show ?case by (auto simp: top_level_count_def W0_def)
next
  case (Cons d ds)
  from Cons.prems obtain v where v: "decl_step fmt W0 d = Done v" and r: "walk fmt v ds = Done w"
    by (cases "decl_step fmt W0 d") simp_all
  have "walk fmt v ds = shift_outcome v (walk fmt W0 ds)" by (rule walk_shift)
  with r obtain u where u: "walk fmt W0 ds = Done u" and w: "w = shift v u"
    by (cases "walk fmt W0 ds") simp_all
  show ?case using Cons.IH [OF u] decl_step_count [OF v] w
    by (simp add: top_level_count_def)
qed

subsection \<open>Every collected node is a leaf\<close>

lemma foldl_invariant:
  assumes "\<And>w x. I w \<Longrightarrow> I (step w x)" and "I w"
  shows "I (foldl step w xs)"
  using assms(2) by (induction xs arbitrary: w) (simp_all add: assms(1))

lemma name_step_leaves:
  "list_all leaf (declarations w) \<Longrightarrow> list_all leaf (declarations (name_step tok w i))"
  by (simp add: name_step_def append_decl_def leaf_def)

lemma spec_step_leaves:
  assumes "list_all leaf (declarations w)"
  shows "list_all leaf (declarations (spec_step tok w s))"
proof (cases s)
  case (ValueSpec names)
  have "list_all leaf (declarations (foldl (name_step tok) w names))"
    by (rule foldl_invariant [where I = "\<lambda>w. list_all leaf (declarations w)"])
       (simp_all add: name_step_leaves assms)
  then show ?thesis using ValueSpec by simp
qed (simp_all add: assms append_decl_def report_def leaf_def)

lemma decl_step_leaves:
  assumes "list_all leaf (declarations w)" and "decl_step fmt w d = Done v"
  shows "list_all leaf (declarations v)"
proof (cases d)
  case (FuncDeclD decl)
  then show ?thesis using assms
    by (auto simp: append_decl_def report_def leaf_def split: option.splits prod.splits)
next
  case (GenDecl tok specs dend)
  have "list_all leaf (declarations (foldl (spec_step tok) w specs))"
    by (rule foldl_invariant [where I = "\<lambda>w. list_all leaf (declarations w)"])
       (simp_all add: spec_step_leaves assms)
  then show ?thesis using GenDecl assms by auto
next
  case (BadDecl p dend)
  then show ?thesis using assms by (auto simp: report_def)
qed

lemma walk_leaves:
  "walk fmt w ds = Done v \<Longrightarrow> list_all leaf (declarations w) \<Longrightarrow> list_all leaf (declarations v)"
proof (induction ds arbitrary: w)
  case Nil
  then show ?case by simp
next
  case (Cons d ds)
  from Cons.prems(1) obtain u where u: "decl_step fmt w d = Done u" and r: "walk fmt u ds = Done v"
    by (cases "decl_step fmt w d") simp_all
  show ?case using Cons.IH [OF r] decl_step_leaves [OF Cons.prems(2) u] by simp
qed


section \<open>main on a file that parses\<close>

lemma resolve_valid:
  assumes "source_text L E = Some text"
  shows "resolve L E m =
     (Some (fst (parse_src L (flag_f E) text m)),
      (if flag_modified E then None else snd (parse_src L (flag_f E) text m)), [])"
proof (cases "flag_modified E")
  case True
  then obtain archive where a: "ParseOverlayArchive L (Stdin E) = Inr archive"
      "archive (flag_f E) = Some text"
    using assms by (auto simp: source_text_def split: sum.splits)
  show ?thesis using True a
    by (simp add: resolve_def ParseFile_def Let_def split: prod.splits)
next
  case False
  then have "disk E (flag_f E) = Some text" using assms by (simp add: source_text_def)
  then show ?thesis using False
    by (simp add: resolve_def ParseFile_def split: prod.splits)
qed

lemma main_valid:
  assumes "source_text L E = Some text"
    and "parse_src L (flag_f E) text (parserMode E) = (f, None)"
  shows "main L E =
    (case walk (format_Node L) W0 (file_Decls f) of
       Panic w \<Rightarrow> \<lparr>Stderr = errs w, Stdout = [], Status = Panicked\<rparr>
     | Done w \<Rightarrow>
         \<lparr>Stderr = errs w, Stdout = [Marshal [root f (declarations w)]], Status = Returned\<rparr>)"
  using resolve_valid [OF assms(1), of "parserMode E"] assms(2)
  by (simp add: main_def W0_def)

lemma main_returned:
  assumes "source_text L E = Some text"
    and "parse_src L (flag_f E) text (parserMode E) = (f, None)"
    and "Status (main L E) = Returned"
  shows "\<exists>w. walk (format_Node L) W0 (file_Decls f) = Done w
    \<and> walked (format_Node L) (file_Decls f) = declarations w
    \<and> Stdout (main L E) = [Marshal [root f (declarations w)]]"
proof (cases "walk (format_Node L) W0 (file_Decls f)")
  case (Done w)
  then show ?thesis using main_valid [OF assms(1,2)] by (simp add: walked_def)
next
  case (Panic w)
  then have "Status (main L E) = Panicked" using main_valid [OF assms(1,2)] by simp
  then show ?thesis using assms(3) by simp
qed

subsection \<open>Which runs report that the file does not parse\<close>

lemma errs_shift [simp]: "errs (shift w v) = errs w @ errs v"
  by (simp add: shift_def)

lemma name_step_errs: "errs (name_step tok w i) = errs w"
  by (simp add: name_step_def append_decl_def)

lemma name_loop_errs: "errs (foldl (name_step tok) w names) = errs w"
  by (induction names arbitrary: w) (simp_all add: name_step_errs)

lemma spec_step_no_parse_error:
  assumes "list_all (\<lambda>e. \<not> is_parse_error e) (errs w)"
  shows "list_all (\<lambda>e. \<not> is_parse_error e) (errs (spec_step tok w s))"
  using assms
  by (cases s) (simp_all add: name_loop_errs append_decl_def report_def reportError_def)

lemma decl_step_no_parse_error:
  assumes "list_all (\<lambda>e. \<not> is_parse_error e) (errs w)"
  shows "case decl_step fmt w d of
           Done v \<Rightarrow> list_all (\<lambda>e. \<not> is_parse_error e) (errs v)
         | Panic v \<Rightarrow> list_all (\<lambda>e. \<not> is_parse_error e) (errs v)"
proof (cases d)
  case (FuncDeclD decl)
  then show ?thesis using assms
    by (auto simp: append_decl_def report_def reportError_def split: option.splits prod.splits)
next
  case (GenDecl tok specs dend)
  have "list_all (\<lambda>e. \<not> is_parse_error e) (errs (foldl (spec_step tok) w specs))"
    by (rule foldl_invariant [where I = "\<lambda>w. list_all (\<lambda>e. \<not> is_parse_error e) (errs w)"])
       (simp_all add: spec_step_no_parse_error assms)
  then show ?thesis using GenDecl by simp
next
  case (BadDecl p dend)
  then show ?thesis using assms by (simp add: report_def reportError_def)
qed

lemma walk_no_parse_error:
  assumes "list_all (\<lambda>e. \<not> is_parse_error e) (errs w)"
  shows "case walk fmt w ds of
           Done v \<Rightarrow> list_all (\<lambda>e. \<not> is_parse_error e) (errs v)
         | Panic v \<Rightarrow> list_all (\<lambda>e. \<not> is_parse_error e) (errs v)"
  using assms
proof (induction ds arbitrary: w)
  case Nil
  then show ?case by simp
next
  case (Cons d ds)
  show ?case
  proof (cases "decl_step fmt w d")
    case (Done v)
    then have "list_all (\<lambda>e. \<not> is_parse_error e) (errs v)"
      using decl_step_no_parse_error [OF Cons.prems, of fmt d] by simp
    then show ?thesis using Done Cons.IH [of v] by simp
  next
    case (Panic v)
    then show ?thesis using decl_step_no_parse_error [OF Cons.prems, of fmt d] by simp
  qed
qed

text \<open>
  Without \<open>-modified\<close>, a file that is read and does not parse is reported before the
  loop starts: the report is the first line on standard error.
\<close>

lemma default_mode_reports_parse_error:
  assumes "\<not> flag_modified E"
    and "disk E (flag_f E) = Some text"
    and "parse_src L (flag_f E) text (parserMode E) = (f, Some e)"
  shows "\<exists>rest. Stderr (main L E) = CouldNotParse (flag_f E) # rest"
proof -
  have r: "resolve L E (parserMode E) = (Some f, Some e, [])"
    using assms by (simp add: resolve_def ParseFile_def)
  have "walk (format_Node L) \<lparr>declarations = [], errs = [CouldNotParse (flag_f E)]\<rparr> (file_Decls f) =
      shift_outcome \<lparr>declarations = [], errs = [CouldNotParse (flag_f E)]\<rparr>
        (walk (format_Node L) W0 (file_Decls f))"
    by (rule walk_shift)
  then show ?thesis using r
    by (cases "walk (format_Node L) W0 (file_Decls f)") (simp_all add: main_def reportError_def)
qed

text \<open>With \<open>-modified\<close>, no run reports that the file does not parse.\<close>

lemma modified_mode_never_reports_parse_error:
  assumes "flag_modified E"
  shows "list_all (\<lambda>e. \<not> is_parse_error e) (Stderr (main L E))"
proof -
  obtain fa es where r: "resolve L E (parserMode E) = (fa, None, es)"
    and es: "list_all (\<lambda>e. \<not> is_parse_error e) es"
    using assms
    by (auto simp: resolve_def Let_def reportError_def split: sum.splits option.splits)
  show ?thesis
  proof (cases fa)
    case None
    then show ?thesis using r es by (simp add: main_def)
  next
    case (Some f)
    have "case walk (format_Node L) \<lparr>declarations = [], errs = es\<rparr> (file_Decls f) of
           Done v \<Rightarrow> list_all (\<lambda>e. \<not> is_parse_error e) (errs v)
         | Panic v \<Rightarrow> list_all (\<lambda>e. \<not> is_parse_error e) (errs v)"
      by (rule walk_no_parse_error) (simp add: es)
    then show ?thesis using r Some
      by (simp add: main_def split: Outcome.splits)
  qed
qed

text \<open>
  With \<open>-modified\<close>, a path that is not in the archive is reported, and what the run
  does next does not depend on the disk: it parses the source of length 0.
\<close>

lemma overlay_miss_resolve:
  assumes "flag_modified E"
    and "ParseOverlayArchive L (Stdin E) = Inr archive"
    and "archive (flag_f E) = None"
  shows "resolve L E m =
     (Some (fst (parse_src L (flag_f E) [] m)), None, [NotInArchive (flag_f E)])"
  using assms
  by (simp add: resolve_def ParseFile_def reportError_def split: prod.splits)

section \<open>The example run\<close>

lemma example_source:
  "source_text example_lib (run_env False [] [''a.go'' \<mapsto> example_src]) = Some example_src"
  by (simp add: source_text_def run_env_def)

lemma example_parses:
  "parse_src example_lib (flag_f (run_env False [] [''a.go'' \<mapsto> example_src])) example_src
     (parserMode (run_env False [] [''a.go'' \<mapsto> example_src])) = (example_File, None)"
  by (simp add: example_lib_def example_parse_def parserMode_def run_env_def)

lemma example_walk:
  "walk (format_Node example_lib) W0 (file_Decls example_File) =
     Done \<lparr>declarations =
       [Declaration fmt_literal ''import'' [] 19 24 (Some []),
        Declaration ''Foo'' ''type'' [] 31 43 (Some []),
        Declaration ''a'' ''constant'' [] 51 52 (Some []),
        Declaration ''b'' ''constant'' [] 54 55 (Some []),
        Declaration ''x'' ''variable'' [] 68 69 (Some []),
        Declaration ''Bar'' ''function'' ''*Foo'' 75 97 (Some []),
        Declaration ''main'' ''function'' [] 99 113 (Some [])],
      errs = []\<rparr>"
  by (simp add: example_lib_def W0_def example_File_def Bar_decl_def main_decl_def
      getReceiverType_def append_decl_def name_step_def)

lemma example_returns:
  "Status (main example_lib (run_env False [] [''a.go'' \<mapsto> example_src])) = Returned"
  using main_valid [OF example_source example_parses] example_walk by simp

lemma example_walked:
  "walked (format_Node example_lib) (file_Decls example_File) =
       [Declaration fmt_literal ''import'' [] 19 24 (Some []),
        Declaration ''Foo'' ''type'' [] 31 43 (Some []),
        Declaration ''a'' ''constant'' [] 51 52 (Some []),
        Declaration ''b'' ''constant'' [] 54 55 (Some []),
        Declaration ''x'' ''variable'' [] 68 69 (Some []),
        Declaration ''Bar'' ''function'' ''*Foo'' 75 97 (Some []),
        Declaration ''main'' ''function'' [] 99 113 (Some [])]"
  using example_walk by (simp add: walked_def)

text \<open>The same file, read from the archive on standard input.\<close>

lemma overlay_source:
  "source_text example_lib (run_env True (lines [''a.go'', ''113''] @ example_src) Map.empty) =
     Some example_src"
  by (simp add: source_text_def run_env_def example_lib_def example_archive_def
      example_src_def lines_def)

lemma overlay_parses:
  "parse_src example_lib (flag_f (run_env True (lines [''a.go'', ''113''] @ example_src) Map.empty))
     example_src (parserMode (run_env True (lines [''a.go'', ''113''] @ example_src) Map.empty)) =
     (example_File, None)"
  by (simp add: example_lib_def example_parse_def parserMode_def run_env_def)

lemma overlay_returns:
  "Status (main example_lib (run_env True (lines [''a.go'', ''113''] @ example_src) Map.empty)) =
     Returned"
  using main_valid [OF overlay_source overlay_parses] example_walk by simp

section \<open>The claims\<close>

text \<open>
  Claim C4, as the specification states it, fails: the file \<open>commented_src\<close> parses and
  the run returns, and the span of the root, 20 to 40, leaves out the comment before the
  package clause and everything after the declaration of \<open>x\<close> in the 61 bytes of the
  text.
\<close>

theorem root_span_misses_comments:
  "source_text example_lib (run_env False [] [''a.go'' \<mapsto> commented_src]) = Some commented_src
   \<and> parse_src example_lib ''a.go'' commented_src ParseComments = (commented_File, None)
   \<and> main example_lib (run_env False [] [''a.go'' \<mapsto> commented_src]) =
       \<lparr>Stderr = [],
        Stdout = [Marshal [Declaration ''p'' ''package'' '''' 20 40
                    (Some [Declaration ''x'' ''variable'' '''' 35 36 (Some [])])]],
        Status = Returned\<rparr>
   \<and> length commented_src = 61
   \<and> \<not> covers 20 40 commented_src"
proof -
  have "resolve example_lib (run_env False [] [''a.go'' \<mapsto> commented_src]) ParseComments =
      (Some commented_File, None, [])"
    by (simp add: resolve_def ParseFile_def run_env_def example_lib_def example_parse_def
        commented_src_def example_src_def norecv_src_def lines_def)
  moreover have "walk (format_Node example_lib) \<lparr>declarations = [], errs = []\<rparr>
      (file_Decls commented_File) =
      Done \<lparr>declarations = [Declaration ''x'' ''variable'' '''' 35 36 (Some [])], errs = []\<rparr>"
    by (simp add: commented_File_def append_decl_def name_step_def)
  ultimately have "main example_lib (run_env False [] [''a.go'' \<mapsto> commented_src]) =
       \<lparr>Stderr = [],
        Stdout = [Marshal [Declaration ''p'' ''package'' '''' 20 40
                    (Some [Declaration ''x'' ''variable'' '''' 35 36 (Some [])])]],
        Status = Returned\<rparr>"
    by (simp add: main_def parserMode_def run_env_def root_def file_Pos_def file_End_def
        commented_File_def)
  moreover have "source_text example_lib (run_env False [] [''a.go'' \<mapsto> commented_src]) =
      Some commented_src"
    by (simp add: source_text_def run_env_def)
  moreover have "parse_src example_lib ''a.go'' commented_src ParseComments = (commented_File, None)"
    by (simp add: example_lib_def example_parse_def commented_src_def example_src_def
        norecv_src_def lines_def)
  moreover have "length commented_src = 61"
    by (simp add: commented_src_def lines_def)
  moreover have "\<not> covers 20 40 commented_src"
    by (simp add: covers_def)
  ultimately show ?thesis by blast
qed

text \<open>
  Claim C4, amended. When the file parses and the run returns, standard output holds one
  JSON array with one element, the root node: its kind is \<open>package\<close>, its label the
  package name of the file, and its span that of the file node. The span starts at the
  keyword \<open>package\<close> and ends where the last top-level declaration ends, or where the
  package name ends when the file has no declaration. The children are the nodes the
  loop collected.
\<close>

theorem root_spans_file_node:
  assumes "source_text L E = Some text"
    and "parse_src L (flag_f E) text (parserMode E) = (f, None)"
    and "Status (main L E) = Returned"
  shows "Stdout (main L E) =
     [Marshal [Declaration (id_Name (file_Name f)) ''package'' ''''
                 (file_Package f)
                 (case file_Decls f of
                    [] \<Rightarrow> id_End (file_Name f)
                  | d # ds \<Rightarrow> Decl_End (last (d # ds)))
                 (Some (walked (format_Node L) (file_Decls f)))]]"
  using main_returned [OF assms] by (auto simp: root_def file_Pos_def file_End_def)

theorem root_spans_file_node_witness:
  "Status (main example_lib (run_env False [] [''a.go'' \<mapsto> example_src])) = Returned
   \<and> Stdout (main example_lib (run_env False [] [''a.go'' \<mapsto> example_src])) =
       [Marshal [Declaration ''p'' ''package'' '''' 1 113
                   (Some (walked (format_Node example_lib) (file_Decls example_File)))]]
   \<and> Status (main example_lib (run_env True (lines [''a.go'', ''113''] @ example_src) Map.empty)) =
       Returned
   \<and> Stdout (main example_lib (run_env True (lines [''a.go'', ''113''] @ example_src) Map.empty)) =
       [Marshal [Declaration ''p'' ''package'' '''' 1 113
                   (Some (walked (format_Node example_lib) (file_Decls example_File)))]]
   \<and> Status (main example_lib (run_env False [] [''a.go'' \<mapsto> bare_src])) = Returned
   \<and> Stdout (main example_lib (run_env False [] [''a.go'' \<mapsto> bare_src])) =
       [Marshal [Declaration ''p'' ''package'' '''' 1 10 (Some [])]]"
proof -
  have bare_source: "source_text example_lib (run_env False [] [''a.go'' \<mapsto> bare_src]) = Some bare_src"
    by (simp add: source_text_def run_env_def)
  have bare_parses: "parse_src example_lib (flag_f (run_env False [] [''a.go'' \<mapsto> bare_src])) bare_src
      (parserMode (run_env False [] [''a.go'' \<mapsto> bare_src])) = (bare_File, None)"
    by (simp add: example_lib_def example_parse_def parserMode_def run_env_def bare_src_def
        commented_src_def example_src_def norecv_src_def lines_def)
  have bare_walk: "walk (format_Node example_lib) W0 (file_Decls bare_File) = Done W0"
    by (simp add: bare_File_def)
  have bare_returns: "Status (main example_lib (run_env False [] [''a.go'' \<mapsto> bare_src])) = Returned"
    using main_valid [OF bare_source bare_parses] bare_walk by simp
  have bare_walked: "walked (format_Node example_lib) (file_Decls bare_File) = []"
    using bare_walk by (simp add: walked_def W0_def)
  show ?thesis
    using root_spans_file_node [OF example_source example_parses example_returns]
      root_spans_file_node [OF overlay_source overlay_parses overlay_returns]
      root_spans_file_node [OF bare_source bare_parses bare_returns]
      example_returns overlay_returns bare_returns bare_walked
    by (simp add: example_File_def bare_File_def main_decl_def)
qed

text \<open>
  Claim C5. When the file parses and the run returns, the root has as many direct
  children as the file has top-level functions and methods, import specs and type specs,
  plus the identifiers of its value specs.
\<close>

theorem children_count:
  assumes "source_text L E = Some text"
    and "parse_src L (flag_f E) text (parserMode E) = (f, None)"
    and "Status (main L E) = Returned"
  shows "Stdout (main L E) = [Marshal [root f (walked (format_Node L) (file_Decls f))]]
    \<and> Children (root f (walked (format_Node L) (file_Decls f))) =
        Some (walked (format_Node L) (file_Decls f))
    \<and> length (walked (format_Node L) (file_Decls f)) = top_level_count (file_Decls f)"
proof -
  obtain w where w: "walk (format_Node L) W0 (file_Decls f) = Done w"
      "walked (format_Node L) (file_Decls f) = declarations w"
      "Stdout (main L E) = [Marshal [root f (declarations w)]]"
    using main_returned [OF assms] by blast
  show ?thesis using w walk_count [OF w(1)] by (simp add: root_def)
qed

theorem children_count_witness:
  "Status (main example_lib (run_env False [] [''a.go'' \<mapsto> example_src])) = Returned
   \<and> length (walked (format_Node example_lib) (file_Decls example_File)) = 7
   \<and> top_level_count (file_Decls example_File) = 7"
  using children_count [OF example_source example_parses example_returns]
    example_returns example_walked
  by simp

text \<open>
  Claim C6. When the file parses and the run returns, a value spec with the identifiers
  \<open>names\<close>, in a declaration of keyword \<open>tok\<close>, gives one node per identifier, in the
  order of the identifiers, each of kind \<open>constant\<close> when the keyword is \<open>const\<close> and
  \<open>variable\<close> otherwise. These nodes stand after those of everything before the spec
  in the file and before those of everything after it.
\<close>

theorem value_spec_nodes:
  assumes "source_text L E = Some text"
    and "parse_src L (flag_f E) text (parserMode E) = (f, None)"
    and "Status (main L E) = Returned"
    and "file_Decls f = pre @ GenDecl tok (spre @ ValueSpec names # spost) dend # post"
  shows "Stdout (main L E) = [Marshal [root f (walked (format_Node L) (file_Decls f))]]
    \<and> walked (format_Node L) (file_Decls f) =
        walked (format_Node L) (pre @ [GenDecl tok spre dend])
        @ map (\<lambda>ident. Declaration (id_Name ident)
                 (if tok = token_CONST then ''constant'' else ''variable'') ''''
                 (id_Pos ident) (id_End ident) (Some [])) names
        @ walked (format_Node L) (GenDecl tok spost dend # post)"
proof -
  obtain w where w: "walk (format_Node L) W0 (file_Decls f) = Done w"
      "walked (format_Node L) (file_Decls f) = declarations w"
      "Stdout (main L E) = [Marshal [root f (declarations w)]]"
    using main_returned [OF assms(1,2,3)] by blast
  have "walk (format_Node L) W0 (pre @ GenDecl tok (spre @ ValueSpec names # spost) dend # post) = Done w"
    using w(1) assms(4) by simp
  then have "walked (format_Node L) (pre @ GenDecl tok (spre @ ValueSpec names # spost) dend # post) =
      walked (format_Node L) (pre @ [GenDecl tok spre dend])
      @ declarations (spec_step tok W0 (ValueSpec names))
      @ walked (format_Node L) (GenDecl tok spost dend # post)"
    by (rule walked_spec_middle)
  then show ?thesis using w(2,3) assms(4) by (simp add: name_loop W0_def)
qed

theorem value_spec_nodes_witness:
  "Status (main example_lib (run_env False [] [''a.go'' \<mapsto> example_src])) = Returned
   \<and> walked (format_Node example_lib) (file_Decls example_File) =
       [Declaration fmt_literal ''import'' [] 19 24 (Some []),
        Declaration ''Foo'' ''type'' [] 31 43 (Some [])]
       @ [Declaration ''a'' ''constant'' [] 51 52 (Some []),
          Declaration ''b'' ''constant'' [] 54 55 (Some [])]
       @ [Declaration ''x'' ''variable'' [] 68 69 (Some []),
          Declaration ''Bar'' ''function'' ''*Foo'' 75 97 (Some []),
          Declaration ''main'' ''function'' [] 99 113 (Some [])]"
proof -
  have split: "file_Decls example_File =
      [GenDecl token_IMPORT [ImportSpec fmt_literal 19 24] 24,
       GenDecl token_TYPE [TypeSpec \<lparr>id_Name = ''Foo'', id_Pos = 31, id_End = 34\<rparr> 31 43] 43]
      @ GenDecl token_CONST ([] @ ValueSpec [\<lparr>id_Name = ''a'', id_Pos = 51, id_End = 52\<rparr>,
                                             \<lparr>id_Name = ''b'', id_Pos = 54, id_End = 55\<rparr>] # []) 62
      # [GenDecl token_VAR [ValueSpec [\<lparr>id_Name = ''x'', id_Pos = 68, id_End = 69\<rparr>]] 73,
         FuncDeclD Bar_decl, FuncDeclD main_decl]"
    by (simp add: example_File_def)
  show ?thesis
    using value_spec_nodes [OF example_source example_parses example_returns split]
      example_returns example_walked
    by simp
qed

text \<open>
  Claim C8. When the file parses and the run returns, an import spec gives one node of
  kind \<open>import\<close> whose label is the value of the path literal as the tree holds it,
  unchanged, in the node and in its JSON object.
\<close>

theorem import_label_is_path_literal:
  assumes "source_text L E = Some text"
    and "parse_src L (flag_f E) text (parserMode E) = (f, None)"
    and "Status (main L E) = Returned"
    and "file_Decls f = pre @ GenDecl tok (spre @ ImportSpec path p e # spost) dend # post"
  shows "Stdout (main L E) = [Marshal [root f (walked (format_Node L) (file_Decls f))]]
    \<and> walked (format_Node L) (file_Decls f) =
        walked (format_Node L) (pre @ [GenDecl tok spre dend])
        @ [Declaration path ''import'' '''' p e (Some [])]
        @ walked (format_Node L) (GenDecl tok spost dend # post)
    \<and> marshal_Declaration (Declaration path ''import'' '''' p e (Some [])) =
        JObject [(''label'', JString path), (''type'', JString ''import''),
                 (''start'', JNumber p), (''end'', JNumber e)]"
proof -
  obtain w where w: "walk (format_Node L) W0 (file_Decls f) = Done w"
      "walked (format_Node L) (file_Decls f) = declarations w"
      "Stdout (main L E) = [Marshal [root f (declarations w)]]"
    using main_returned [OF assms(1,2,3)] by blast
  have "walk (format_Node L) W0 (pre @ GenDecl tok (spre @ ImportSpec path p e # spost) dend # post) = Done w"
    using w(1) assms(4) by simp
  then have "walked (format_Node L) (pre @ GenDecl tok (spre @ ImportSpec path p e # spost) dend # post) =
      walked (format_Node L) (pre @ [GenDecl tok spre dend])
      @ declarations (spec_step tok W0 (ImportSpec path p e))
      @ walked (format_Node L) (GenDecl tok spost dend # post)"
    by (rule walked_spec_middle)
  then show ?thesis using w(2,3) assms(4) by (simp add: append_decl_def W0_def)
qed

theorem import_label_is_path_literal_witness:
  "Status (main example_lib (run_env False [] [''a.go'' \<mapsto> example_src])) = Returned
   \<and> hd (walked (format_Node example_lib) (file_Decls example_File)) =
       Declaration [CHR 0x22, CHR ''f'', CHR ''m'', CHR ''t'', CHR 0x22] ''import'' [] 19 24 (Some [])
   \<and> marshal_Declaration (Declaration fmt_literal ''import'' '''' 19 24 (Some [])) =
        JObject [(''label'', JString [CHR 0x22, CHR ''f'', CHR ''m'', CHR ''t'', CHR 0x22]),
                 (''type'', JString ''import''), (''start'', JNumber 19), (''end'', JNumber 24)]"
proof -
  have split: "file_Decls example_File =
      [] @ GenDecl token_IMPORT ([] @ ImportSpec fmt_literal 19 24 # []) 24
      # [GenDecl token_TYPE [TypeSpec \<lparr>id_Name = ''Foo'', id_Pos = 31, id_End = 34\<rparr> 31 43] 43,
         GenDecl token_CONST [ValueSpec [\<lparr>id_Name = ''a'', id_Pos = 51, id_End = 52\<rparr>,
                                         \<lparr>id_Name = ''b'', id_Pos = 54, id_End = 55\<rparr>]] 62,
         GenDecl token_VAR [ValueSpec [\<lparr>id_Name = ''x'', id_Pos = 68, id_End = 69\<rparr>]] 73,
         FuncDeclD Bar_decl, FuncDeclD main_decl]"
    by (simp add: example_File_def)
  have empty: "walked (format_Node example_lib) ([] @ [GenDecl token_IMPORT [] 24]) = []"
    by (simp add: walked_def W0_def)
  show ?thesis
    using import_label_is_path_literal [OF example_source example_parses example_returns split]
      example_returns empty
    by (simp add: fmt_literal_def)
qed

text \<open>
  Claim C7. When the file parses and the run returns, a function declaration without a
  receiver clause gives a \<open>function\<close> node whose receiver type is the empty string, and
  the key \<open>receiverType\<close> is not in its JSON object. A method gives a \<open>function\<close> node
  whose receiver type is the text the printer returns for the type expression of the
  first receiver field; the names of the field are not read.
\<close>

theorem receiver_type_of_function_node:
  assumes "source_text L E = Some text"
    and "parse_src L (flag_f E) text (parserMode E) = (f, None)"
    and "Status (main L E) = Returned"
    and "file_Decls f = pre @ FuncDeclD decl # post"
  shows "(fn_Recv decl = None \<longrightarrow>
            walked (format_Node L) (file_Decls f) =
              walked (format_Node L) pre
              @ [Declaration (id_Name (fn_Name decl)) ''function'' '''' (fn_Pos decl) (fn_End decl) (Some [])]
              @ walked (format_Node L) post
            \<and> ''receiverType'' \<notin> set (keys (marshal_Declaration
                (Declaration (id_Name (fn_Name decl)) ''function'' '''' (fn_Pos decl) (fn_End decl) (Some [])))))
    \<and> (\<forall>fld rest s. fn_Recv decl = Some (fld # rest) \<longrightarrow> format_Node L (fld_Type fld) = Inr s \<longrightarrow>
            walked (format_Node L) (file_Decls f) =
              walked (format_Node L) pre
              @ [Declaration (id_Name (fn_Name decl)) ''function'' s (fn_Pos decl) (fn_End decl) (Some [])]
              @ walked (format_Node L) post)
    \<and> Stdout (main L E) = [Marshal [root f (walked (format_Node L) (file_Decls f))]]"
proof -
  obtain w where w: "walk (format_Node L) W0 (file_Decls f) = Done w"
      "walked (format_Node L) (file_Decls f) = declarations w"
      "Stdout (main L E) = [Marshal [root f (declarations w)]]"
    using main_returned [OF assms(1,2,3)] by blast
  have all: "walk (format_Node L) W0 (pre @ FuncDeclD decl # post) = Done w"
    using w(1) assms(4) by simp
  have plain: "walked (format_Node L) (file_Decls f) =
      walked (format_Node L) pre
      @ [Declaration (id_Name (fn_Name decl)) ''function'' '''' (fn_Pos decl) (fn_End decl) (Some [])]
      @ walked (format_Node L) post" if "fn_Recv decl = None"
    using walked_decl_middle [OF all decl_step_FuncDecl_plain [where fmt = "format_Node L", OF that]] assms(4) by simp
  have with_recv: "walked (format_Node L) (file_Decls f) =
      walked (format_Node L) pre
      @ [Declaration (id_Name (fn_Name decl)) ''function'' s (fn_Pos decl) (fn_End decl) (Some [])]
      @ walked (format_Node L) post"
    if "fn_Recv decl = Some (fld # rest)" and "format_Node L (fld_Type fld) = Inr s" for fld rest s
    using walked_decl_middle [OF all decl_step_FuncDecl_method [where fmt = "format_Node L", OF that]] assms(4) by simp
  show ?thesis using plain with_recv w(2,3) by simp
qed

theorem receiver_type_of_function_node_witness:
  "Status (main example_lib (run_env False [] [''a.go'' \<mapsto> example_src])) = Returned
   \<and> fn_Recv Bar_decl = Some [\<lparr>fld_Names = [\<lparr>id_Name = ''r'', id_Pos = 81, id_End = 82\<rparr>],
                                fld_Type = StarExpr (IdentExpr ''Foo'')\<rparr>]
   \<and> format_Node example_lib (StarExpr (IdentExpr ''Foo'')) = Inr ''*Foo''
   \<and> fn_Recv main_decl = None
   \<and> walked (format_Node example_lib) (file_Decls example_File) =
       walked (format_Node example_lib) (butlast (butlast (file_Decls example_File)))
       @ [Declaration ''Bar'' ''function'' ''*Foo'' 75 97 (Some [])]
       @ [Declaration ''main'' ''function'' '''' 99 113 (Some [])]
   \<and> ''receiverType'' \<notin> set (keys (marshal_Declaration
        (Declaration ''main'' ''function'' '''' 99 113 (Some []))))"
proof -
  have split_Bar: "file_Decls example_File =
      butlast (butlast (file_Decls example_File)) @ FuncDeclD Bar_decl # [FuncDeclD main_decl]"
    by (simp add: example_File_def)
  have split_main: "file_Decls example_File =
      butlast (file_Decls example_File) @ FuncDeclD main_decl # []"
    by (simp add: example_File_def)
  have recv: "fn_Recv Bar_decl = Some (\<lparr>fld_Names = [\<lparr>id_Name = ''r'', id_Pos = 81, id_End = 82\<rparr>],
                                fld_Type = StarExpr (IdentExpr ''Foo'')\<rparr> # [])"
    by (simp add: Bar_decl_def)
  have printed: "format_Node example_lib (fld_Type \<lparr>fld_Names = [\<lparr>id_Name = ''r'', id_Pos = 81, id_End = 82\<rparr>],
                                fld_Type = StarExpr (IdentExpr ''Foo'')\<rparr>) = Inr ''*Foo''"
    by (simp add: example_lib_def)
  have plain: "fn_Recv main_decl = None"
    by (simp add: main_decl_def)
  have tail: "walked (format_Node example_lib) [FuncDeclD main_decl] =
      [Declaration ''main'' ''function'' '''' 99 113 (Some [])]"
    by (simp add: walked_def W0_def main_decl_def getReceiverType_def append_decl_def)
  show ?thesis
    using receiver_type_of_function_node [OF example_source example_parses example_returns split_Bar]
      receiver_type_of_function_node [OF example_source example_parses example_returns split_main]
      example_returns recv printed plain tail
    by (simp add: Bar_decl_def main_decl_def)
qed

subsection \<open>The key \<open>children\<close> in the JSON object\<close>

lemma no_children_key:
  assumes "Children d = Some []"
  shows "''children'' \<notin> set (keys (marshal_Declaration d))"
  using assms by (cases d) simp

lemma root_children_key:
  "''children'' \<in> set (keys (marshal_Declaration (root f ds))) \<longleftrightarrow> ds \<noteq> []"
  by (simp add: root_def)

text \<open>
  Claim C9. When the file parses and the run returns, every child of the root is of kind
  function, import, type, variable or constant and its children are the allocated empty
  slice; the root alone holds a slice that may be non-empty. In the JSON objects the key
  \<open>children\<close> is left out of every child, and out of the root exactly when the root has
  no child.
\<close>

theorem children_empty_and_omitted:
  assumes "source_text L E = Some text"
    and "parse_src L (flag_f E) text (parserMode E) = (f, None)"
    and "Status (main L E) = Returned"
  shows "Stdout (main L E) = [Marshal [root f (walked (format_Node L) (file_Decls f))]]
    \<and> Children (root f (walked (format_Node L) (file_Decls f))) =
        Some (walked (format_Node L) (file_Decls f))
    \<and> (\<forall>d \<in> set (walked (format_Node L) (file_Decls f)).
          Children d = Some []
          \<and> Type d \<in> {''function'', ''import'', ''type'', ''variable'', ''constant''}
          \<and> ''children'' \<notin> set (keys (marshal_Declaration d)))
    \<and> (''children'' \<in> set (keys (marshal_Declaration
            (root f (walked (format_Node L) (file_Decls f)))))
        \<longleftrightarrow> walked (format_Node L) (file_Decls f) \<noteq> [])"
proof -
  obtain w where w: "walk (format_Node L) W0 (file_Decls f) = Done w"
      "walked (format_Node L) (file_Decls f) = declarations w"
      "Stdout (main L E) = [Marshal [root f (declarations w)]]"
    using main_returned [OF assms] by blast
  have "list_all leaf (declarations w)"
    using walk_leaves [OF w(1)] by (simp add: W0_def)
  then have leaves: "\<forall>d \<in> set (declarations w). leaf d"
    by (simp add: list_all_iff)
  have "\<forall>d \<in> set (declarations w).
          Children d = Some []
          \<and> Type d \<in> {''function'', ''import'', ''type'', ''variable'', ''constant''}
          \<and> ''children'' \<notin> set (keys (marshal_Declaration d))"
  proof
    fix d assume "d \<in> set (declarations w)"
    then have "leaf d" using leaves by blast
    then show "Children d = Some []
          \<and> Type d \<in> {''function'', ''import'', ''type'', ''variable'', ''constant''}
          \<and> ''children'' \<notin> set (keys (marshal_Declaration d))"
      using no_children_key [of d] unfolding leaf_def by blast
  qed
  moreover have "Children (root f (declarations w)) = Some (declarations w)"
    by (simp add: root_def)
  ultimately show ?thesis using w(2,3) root_children_key [of f "declarations w"] by simp
qed

theorem children_empty_and_omitted_witness:
  "Status (main example_lib (run_env False [] [''a.go'' \<mapsto> example_src])) = Returned
   \<and> Declaration ''Bar'' ''function'' ''*Foo'' 75 97 (Some [])
        \<in> set (walked (format_Node example_lib) (file_Decls example_File))
   \<and> marshal_Declaration (Declaration ''Bar'' ''function'' ''*Foo'' 75 97 (Some [])) =
        JObject [(''label'', JString ''Bar''), (''type'', JString ''function''),
                 (''receiverType'', JString ''*Foo''),
                 (''start'', JNumber 75), (''end'', JNumber 97)]
   \<and> list_all (\<lambda>d. Children d = Some [] \<and> ''children'' \<notin> set (keys (marshal_Declaration d)))
        (walked (format_Node example_lib) (file_Decls example_File))
   \<and> ''children'' \<in> set (keys (marshal_Declaration
        (root example_File (walked (format_Node example_lib) (file_Decls example_File)))))"
  using children_empty_and_omitted [OF example_source example_parses example_returns]
    example_returns example_walked
  by simp

section \<open>Runs in which an error is reported\<close>

text \<open>
  Claim C1. The file \<open>a.go\<close> on disk has length 0 and does not parse: the run writes
  \<open>could not parse file a.go\<close> to standard error, goes on, prints the outline of the
  empty tree to standard output and returns. With a printer that fails on the receiver
  of \<open>Bar\<close>, the run writes the failure to standard error, gives \<open>Bar\<close> a node without
  receiver type, and prints the outline of the whole file.
\<close>

theorem run_continues_after_error:
  "main example_lib (run_env False [] [''a.go'' \<mapsto> []]) =
     \<lparr>Stderr = [CouldNotParse ''a.go''],
      Stdout = [JArray [JObject [(''label'', JString []), (''type'', JString ''package''),
                                  (''start'', JNumber 0), (''end'', JNumber 0)]]],
      Status = Returned\<rparr>
   \<and> main (example_lib\<lparr>format_Node := (\<lambda>x. Inl ''cannot print'')\<rparr>)
        (run_env False [] [''a.go'' \<mapsto> example_src]) =
     \<lparr>Stderr = [ReceiverError ''cannot print''],
      Stdout = [Marshal [Declaration ''p'' ''package'' [] 1 113 (Some
        [Declaration fmt_literal ''import'' [] 19 24 (Some []),
         Declaration ''Foo'' ''type'' [] 31 43 (Some []),
         Declaration ''a'' ''constant'' [] 51 52 (Some []),
         Declaration ''b'' ''constant'' [] 54 55 (Some []),
         Declaration ''x'' ''variable'' [] 68 69 (Some []),
         Declaration ''Bar'' ''function'' [] 75 97 (Some []),
         Declaration ''main'' ''function'' [] 99 113 (Some [])])]],
      Status = Returned\<rparr>"
proof -
  have "main example_lib (run_env False [] [''a.go'' \<mapsto> []]) =
     \<lparr>Stderr = [CouldNotParse ''a.go''],
      Stdout = [JArray [JObject [(''label'', JString []), (''type'', JString ''package''),
                                  (''start'', JNumber 0), (''end'', JNumber 0)]]],
      Status = Returned\<rparr>"
    by (simp add: main_def resolve_def ParseFile_def parserMode_def run_env_def example_lib_def
        example_parse_def example_src_def norecv_src_def lines_def empty_File_def
        reportError_def Marshal_def root_def file_Pos_def file_End_def commented_src_def bare_src_def)
  moreover have "resolve (example_lib\<lparr>format_Node := (\<lambda>x. Inl ''cannot print'')\<rparr>)
        (run_env False [] [''a.go'' \<mapsto> example_src]) ParseComments = (Some example_File, None, [])"
    by (simp add: resolve_def ParseFile_def run_env_def example_lib_def example_parse_def)
  moreover have "walk (\<lambda>x. Inl ''cannot print'') \<lparr>declarations = [], errs = []\<rparr> (file_Decls example_File) =
     Done \<lparr>declarations =
       [Declaration fmt_literal ''import'' [] 19 24 (Some []),
        Declaration ''Foo'' ''type'' [] 31 43 (Some []),
        Declaration ''a'' ''constant'' [] 51 52 (Some []),
        Declaration ''b'' ''constant'' [] 54 55 (Some []),
        Declaration ''x'' ''variable'' [] 68 69 (Some []),
        Declaration ''Bar'' ''function'' [] 75 97 (Some []),
        Declaration ''main'' ''function'' [] 99 113 (Some [])],
      errs = [ReceiverError ''cannot print'']\<rparr>"
    by (simp add: example_File_def Bar_decl_def main_decl_def
        getReceiverType_def append_decl_def name_step_def report_def reportError_def)
  ultimately show ?thesis
    by (simp add: main_def parserMode_def run_env_def root_def file_Pos_def file_End_def
        example_File_def main_decl_def)
qed

text \<open>
  Claim C2. With \<open>-modified\<close> and an archive that has no entry for \<open>a.go\<close>, the run
  writes \<open>couldn't find a.go in archive\<close> to standard error and does not read the file
  on disk (which holds the example); it then parses the source of length 0, prints the
  outline of the empty tree to standard output and returns.
\<close>

theorem overlay_miss_prints_outline:
  "main example_lib (run_env True [] [''a.go'' \<mapsto> example_src]) =
     \<lparr>Stderr = [NotInArchive ''a.go''],
      Stdout = [JArray [JObject [(''label'', JString []), (''type'', JString ''package''),
                                  (''start'', JNumber 0), (''end'', JNumber 0)]]],
      Status = Returned\<rparr>"
  by (simp add: main_def resolve_def ParseFile_def parserMode_def run_env_def example_lib_def
      example_parse_def example_archive_def example_src_def norecv_src_def lines_def
      empty_File_def reportError_def Marshal_def root_def
      file_Pos_def file_End_def commented_src_def bare_src_def)

text \<open>
  Claim C3. With \<open>-modified\<close> and an archive whose entry for \<open>a.go\<close> has length 0, the
  parser returns an error, and the run writes nothing to standard error: it prints the
  outline of the empty tree and returns.
\<close>

theorem overlay_parse_error_not_reported:
  "ParseFile example_lib Map.empty ''a.go'' (Some []) ParseComments =
     (Some empty_File, Some ''expected package'')
   \<and> main example_lib (run_env True (lines [''a.go'', ''0'']) Map.empty) =
     \<lparr>Stderr = [],
      Stdout = [JArray [JObject [(''label'', JString []), (''type'', JString ''package''),
                                  (''start'', JNumber 0), (''end'', JNumber 0)]]],
      Status = Returned\<rparr>"
  by (simp add: main_def resolve_def ParseFile_def parserMode_def run_env_def example_lib_def
      example_parse_def example_archive_def example_src_def norecv_src_def lines_def
      empty_File_def reportError_def Marshal_def root_def
      file_Pos_def file_End_def commented_src_def bare_src_def)

text \<open>
  Claim C10. For a function declaration without a receiver clause \<open>getReceiverType\<close>
  returns the empty string and no error. For the method \<open>func () f() {}\<close>, whose
  receiver list has length 0, the access to the first field is out of range: the call
  panics, and so does the run, with nothing on standard output.
\<close>

theorem empty_receiver_list_panics:
  "getReceiverType (format_Node example_lib) main_decl = Some ('''', None)
   \<and> fn_Recv norecv_decl = Some []
   \<and> getReceiverType (format_Node example_lib) norecv_decl = None
   \<and> parse_src example_lib ''a.go'' norecv_src ParseComments = (norecv_File, None)
   \<and> main example_lib (run_env False [] [''a.go'' \<mapsto> norecv_src]) =
       \<lparr>Stderr = [], Stdout = [], Status = Panicked\<rparr>"
  by (simp add: main_def resolve_def ParseFile_def parserMode_def run_env_def example_lib_def
      example_parse_def example_src_def norecv_src_def lines_def norecv_File_def
      norecv_decl_def main_decl_def getReceiverType_def)

end
